theory Spec2Isabelle
  imports
    Main
    "HOL-Library.Product_Lexorder"
    "HOL-Library.Option_ord"
    "HOL-Library.Sublist"
    "HOL-Library.Multiset"
begin

section \<open>Strings\<close>

text \<open>
  Python strings are modelled as \<^typ>\<open>string\<close>.  The helpers below are the string
  methods that \<^verbatim>\<open>generators.py\<close> calls: \<^verbatim>\<open>sep.join(xs)\<close>, \<^verbatim>\<open>s.replace(old, new)\<close>
  (only ever called with a non-empty \<^verbatim>\<open>old\<close>), \<^verbatim>\<open>s.split(sep)\<close> with a one-character
  separator and \<^verbatim>\<open>s.startswith(p)\<close> (which is \<^const>\<open>prefix\<close>).
\<close>

abbreviation squote :: char where
  "squote \<equiv> CHR 0x27"

abbreviation backslash :: char where
  "backslash \<equiv> CHR 0x5C"

abbreviation dquote :: char where
  "dquote \<equiv> CHR 0x22"

fun str_join :: "string \<Rightarrow> string list \<Rightarrow> string" where
  "str_join sep [] = []"
| "str_join sep [x] = x"
| "str_join sep (x # y # ys) = x @ sep @ str_join sep (y # ys)"

fun str_replace :: "string \<Rightarrow> string \<Rightarrow> string \<Rightarrow> string" where
  "str_replace old new [] = []"
| "str_replace old new (c # cs) =
     (if old \<noteq> [] \<and> prefix old (c # cs)
      then new @ str_replace old new (drop (length old - 1) cs)
      else c # str_replace old new cs)"

fun split_acc :: "char \<Rightarrow> string \<Rightarrow> string \<Rightarrow> string list" where
  "split_acc d cur [] = [rev cur]"
| "split_acc d cur (c # cs) =
     (if c = d then rev cur # split_acc d [] cs else split_acc d (c # cur) cs)"

definition str_split :: "char \<Rightarrow> string \<Rightarrow> string list" where
  "str_split d s = split_acc d [] s"

section \<open>Descriptor model\<close>

text \<open>
  The descriptors are produced by the parser and only read by the generators.  Each
  record lists the attributes that \<^verbatim>\<open>generators.py\<close> reads; an attribute the code
  tests against \<^verbatim>\<open>None\<close> is an option.  Field names carry a short prefix because two
  descriptors may not share a field name.
\<close>

record Argument =
  arg_position :: "int option"
  arg_prefix :: "string option"
  arg_separate :: bool
  arg_value :: "string option"

record CommandInput =
  ci_name :: string
  ci_variable_type :: string
  ci_position :: "int option"
  ci_prefix :: "string option"
  ci_separate :: bool
  ci_is_required :: bool
  ci_default :: "string option"
  ci_separator :: string

datatype payload = StrValue string | EnvValue "(string \<times> string) list"

record Requirement =
  requirement_type :: "string option"
  req_value :: "payload option"

record StructDefinition =
  struct_name :: string
  struct_fields :: "(string \<times> string) list"

record Variable =
  var_is_required :: bool
  var_variable_type :: string
  var_name :: string

record TaskOutput =
  out_variable_type :: string
  out_name :: string
  out_output :: string

record Command =
  baseCommand :: string
  arguments :: "Argument list"
  cmd_inputs :: "CommandInput list"

record Task =
  task_name :: string
  task_inputs :: "Variable list"
  command :: Command
  task_outputs :: "TaskOutput list"
  requirements :: "Requirement list"
  stdin :: "string option"
  stdout :: "string option"

datatype error = TypeError | IndexError | Unmodelled

section \<open>WdlTaskGenerator: the command\<close>

text \<open>\<^verbatim>\<open>_is_struct\<close>: strip every \<^verbatim>\<open>Array[\<close> and \<^verbatim>\<open>]\<close>, then look the name up.\<close>

definition is_struct :: "StructDefinition list \<Rightarrow> string \<Rightarrow> bool" where
  "is_struct structs vtype =
     (str_replace '']'' [] (str_replace ''Array['' [] vtype) \<in> set (map struct_name structs))"

text \<open>The body of the loop over \<^verbatim>\<open>self.command.arguments\<close>.\<close>

definition format_argument :: "Argument \<Rightarrow> string" where
  "format_argument arg =
     (let (sp, pre) = (case arg_prefix arg of
                         Some p \<Rightarrow> (if arg_separate arg then '' '' else [], p)
                       | None \<Rightarrow> ([], []));
          v = (case arg_value arg of Some v \<Rightarrow> v | None \<Rightarrow> [])
      in pre @ sp @ v)"

definition add_argument ::
  "int option list \<times> string list \<Rightarrow> Argument \<Rightarrow> int option list \<times> string list" where
  "add_argument acc arg = (fst acc @ [arg_position arg], snd acc @ [format_argument arg])"

text \<open>
  The body of the loop over \<^verbatim>\<open>self.command.inputs\<close>: \<^const>\<open>None\<close> is a
  \<^verbatim>\<open>continue\<close> that appends nothing, \<open>Some (p, t)\<close> appends \<open>p\<close> to
  \<^verbatim>\<open>command_position\<close> and \<open>t\<close> to \<^verbatim>\<open>command_parts\<close>.
\<close>

definition standard_token :: "CommandInput \<Rightarrow> string" where
  "standard_token ci =
     (let sep = (if prefix ''Array'' (ci_variable_type ci)
                 then ''sep='' @ [squote] @ ci_separator ci @ [squote] @ '' '' else []);
          dflt = (case ci_default ci of
                    Some d \<Rightarrow> ''default='' @ [squote] @ d @ [squote] @ '' ''
                  | None \<Rightarrow> []);
          nm = sep @ dflt @ ci_name ci
      in case ci_prefix ci of
           None \<Rightarrow> ''${'' @ nm @ ''}''
         | Some p \<Rightarrow>
             if ci_is_required ci
             then (if ci_separate ci then p @ '' ${'' @ nm @ ''}'' else p @ ''${'' @ nm @ ''}'')
             else ''${'' @ p @ '' + '' @ nm @ ''}'')"

definition input_entry ::
  "StructDefinition list \<Rightarrow> string option \<Rightarrow> CommandInput \<Rightarrow> (int option \<times> string) option" where
  "input_entry structs out ci =
     (if ci_variable_type ci = ''Boolean'' \<and> (ci_default ci = Some ''False'' \<or> ci_prefix ci = None)
      then None
      else if is_struct structs (ci_variable_type ci)
      then Some (ci_position ci, ''${write_struct('' @ ci_name ci @ '')}'')
      else if Some (ci_name ci) = out then None
      else Some (ci_position ci, standard_token ci))"

definition add_input ::
  "StructDefinition list \<Rightarrow> string option \<Rightarrow> int option list \<times> string list \<Rightarrow> CommandInput
     \<Rightarrow> int option list \<times> string list" where
  "add_input structs out acc ci =
     (case input_entry structs out ci of
        None \<Rightarrow> acc
      | Some (p, t) \<Rightarrow> (fst acc @ [p], snd acc @ [t]))"

text \<open>
  The two parallel lists \<^verbatim>\<open>command_position\<close> and \<^verbatim>\<open>command_parts\<close> after both
  passes.  They start as \<^verbatim>\<open>[0]\<close> and \<^verbatim>\<open>[self.command.baseCommand]\<close>.
\<close>

definition command_entries :: "StructDefinition list \<Rightarrow> Task \<Rightarrow> int option list \<times> string list" where
  "command_entries structs task =
     foldl (add_input structs (stdout task))
       (foldl add_argument ([Some 0], [baseCommand (command task)]) (arguments (command task)))
       (cmd_inputs (command task))"

text \<open>
  \<^verbatim>\<open>sorted(enumerate(command_position), key=lambda x: (x[1] is None, x[1]))\<close>.
  Python's \<^verbatim>\<open>sorted\<close> is stable, as is \<^const>\<open>sort_key\<close>; tuples compare
  lexicographically, and two keys of absent positions are equal.
\<close>

definition position_key :: "int option \<Rightarrow> bool \<times> int option" where
  "position_key p = (p = None, p)"

definition cmd_order :: "int option list \<Rightarrow> nat list" where
  "cmd_order command_position =
     map fst (sort_key (\<lambda>x. position_key (snd x)) (enumerate 0 command_position))"

definition ordered_command_parts :: "int option list \<Rightarrow> string list \<Rightarrow> string list" where
  "ordered_command_parts command_position command_parts =
     map (\<lambda>i. command_parts ! i) (cmd_order command_position)"

text \<open>
  The loop over the requirements.  An \<^verbatim>\<open>envVar\<close> requirement whose value is not a
  list of pairs raises: iterating \<^verbatim>\<open>None\<close> is a \<^verbatim>\<open>TypeError\<close>, and indexing a
  one-character string at 1 is an \<^verbatim>\<open>IndexError\<close>.
\<close>

fun envvar_token :: "payload option \<Rightarrow> error + string" where
  "envvar_token None = Inl TypeError"
| "envvar_token (Some (EnvValue kvs)) =
     Inr (str_join '' '' (map (\<lambda>(k, v). k @ ''='' @ [squote] @ v @ [squote]) kvs))"
| "envvar_token (Some (StrValue [])) = Inr []"
| "envvar_token (Some (StrValue (c # cs))) = Inl IndexError"

fun add_envvars :: "Requirement list \<Rightarrow> string list \<Rightarrow> error + string list" where
  "add_envvars [] parts = Inr parts"
| "add_envvars (req # reqs) parts =
     (if requirement_type req = Some ''envVar''
      then (case envvar_token (req_value req) of
              Inl e \<Rightarrow> Inl e
            | Inr t \<Rightarrow> add_envvars reqs (t # parts))
      else add_envvars reqs parts)"

definition redirect_token :: "string \<Rightarrow> string" where
  "redirect_token out = ''> ${'' @ out @ ''}''"

definition add_stdout :: "string option \<Rightarrow> string list \<Rightarrow> string list" where
  "add_stdout out parts = (case out of None \<Rightarrow> parts | Some s \<Rightarrow> parts @ [redirect_token s])"

definition line_continuation :: string where
  "line_continuation = '' '' @ [backslash] @ ''\<newline>        ''"

text \<open>The final \<^verbatim>\<open>ordered_command_parts\<close>, just before it is joined.\<close>

definition command_tokens :: "StructDefinition list \<Rightarrow> Task \<Rightarrow> error + string list" where
  "command_tokens structs task =
     (case command_entries structs task of
        (command_position, command_parts) \<Rightarrow>
          (case add_envvars (requirements task)
                  (ordered_command_parts command_position command_parts) of
             Inl e \<Rightarrow> Inl e
           | Inr parts \<Rightarrow> Inr (add_stdout (stdout task) parts)))"

definition format_command :: "StructDefinition list \<Rightarrow> Task \<Rightarrow> error + string" where
  "format_command structs task =
     (case command_tokens structs task of
        Inl e \<Rightarrow> Inl e
      | Inr parts \<Rightarrow> Inr (str_join line_continuation parts))"

section \<open>WdlTaskGenerator: the task text\<close>

text \<open>
  \<^verbatim>\<open>re.sub("($)", "?", t)\<close>: \<^verbatim>\<open>$\<close> matches at the end of the string and, when the
  string ends with a newline, also just before that newline.
\<close>

definition mark_optional :: "string \<Rightarrow> string" where
  "mark_optional t =
     (if t \<noteq> [] \<and> last t = CHR ''\<newline>'' then butlast t @ ''?\<newline>?'' else t @ ''?'')"

definition format_variable :: "Variable \<Rightarrow> string" where
  "format_variable var =
     (if var_is_required var then var_variable_type var else mark_optional (var_variable_type var))
     @ '' '' @ var_name var"

definition format_inputs :: "Variable list \<Rightarrow> string" where
  "format_inputs vars = str_join ''\<newline>    '' (map format_variable vars)"

definition format_outputs :: "TaskOutput list \<Rightarrow> string" where
  "format_outputs outs =
     str_join ''\<newline>        ''
       (map (\<lambda>var. out_variable_type var @ '' '' @ out_name var @ '' = '' @ out_output var) outs)"

text \<open>
  \<^verbatim>\<open>__format_runtime\<close>.  A list payload under a type other than \<^verbatim>\<open>envVar\<close> would be
  printed with Python's \<^verbatim>\<open>repr\<close>, which is outside this model.
\<close>

fun format_runtime_lines :: "Requirement list \<Rightarrow> error + string list" where
  "format_runtime_lines [] = Inr []"
| "format_runtime_lines (req # reqs) =
     (case (requirement_type req, req_value req) of
        (None, _) \<Rightarrow> format_runtime_lines reqs
      | (Some t, None) \<Rightarrow> format_runtime_lines reqs
      | (Some t, Some v) \<Rightarrow>
          if t = ''envVar'' then format_runtime_lines reqs
          else (case v of
                  EnvValue kvs \<Rightarrow> Inl Unmodelled
                | StrValue sv \<Rightarrow>
                    (case format_runtime_lines reqs of
                       Inl e \<Rightarrow> Inl e
                     | Inr ls \<Rightarrow> Inr ((t @ '': '' @ [squote] @ sv @ [squote]) # ls))))"

definition format_runtime :: "Requirement list \<Rightarrow> error + string" where
  "format_runtime reqs =
     (case format_runtime_lines reqs of
        Inl e \<Rightarrow> Inl e
      | Inr ls \<Rightarrow> Inr (str_join ''\<newline>        '' ls))"

text \<open>
  \<^verbatim>\<open>re.sub("\s+runtime {\s+}", "", wdl)\<close>.  The class \<^verbatim>\<open>\s\<close> is Python 3's, over code
  points below 256.  Both \<^verbatim>\<open>\s+\<close> are followed by a character that is not white
  space, so the longest run is the only candidate and there is no backtracking.
  \<open>empty_runtime_match s\<close> is the length of the match at the start of \<open>s\<close>.
\<close>

definition is_space :: "char \<Rightarrow> bool" where
  "is_space c = ((of_char c :: nat) \<in> set [9, 10, 11, 12, 13, 28, 29, 30, 31, 32, 133, 160])"

definition empty_runtime_match :: "string \<Rightarrow> nat option" where
  "empty_runtime_match s =
     (let ws1 = takeWhile is_space s; r1 = dropWhile is_space s;
          r2 = drop 9 r1;
          ws2 = takeWhile is_space r2; r3 = dropWhile is_space r2
      in if ws1 \<noteq> [] \<and> prefix ''runtime {'' r1 \<and> ws2 \<noteq> [] \<and> prefix ''}'' r3
         then Some (length ws1 + 9 + length ws2 + 1)
         else None)"

fun strip_empty_runtime :: "string \<Rightarrow> string" where
  "strip_empty_runtime [] = []"
| "strip_empty_runtime (c # cs) =
     (case empty_runtime_match (c # cs) of
        Some n \<Rightarrow> strip_empty_runtime (drop (n - 1) cs)
      | None \<Rightarrow> c # strip_empty_runtime cs)"

definition task_template :: "string \<Rightarrow> string \<Rightarrow> string \<Rightarrow> string \<Rightarrow> string \<Rightarrow> string" where
  "task_template nm ins cmd outs rt =
     ''\<newline>task '' @ nm @ '' {\<newline>    '' @ ins
     @ ''\<newline>\<newline>    command {\<newline>        '' @ cmd
     @ ''\<newline>    }\<newline>\<newline>    output {\<newline>        '' @ outs
     @ ''\<newline>    }\<newline>\<newline>    runtime {\<newline>        '' @ rt
     @ ''\<newline>    }\<newline>}\<newline>''"

definition task_generate_wdl :: "StructDefinition list \<Rightarrow> Task \<Rightarrow> error + string" where
  "task_generate_wdl structs task =
     (case format_command structs task of
        Inl e \<Rightarrow> Inl e
      | Inr cmd \<Rightarrow>
          (case format_runtime (requirements task) of
             Inl e \<Rightarrow> Inl e
           | Inr rt \<Rightarrow>
               (let wdl = task_template (task_name task) (format_inputs (task_inputs task)) cmd
                            (format_outputs (task_outputs task)) rt
                in Inr (if rt = [] then strip_empty_runtime wdl else wdl))))"

section \<open>WdlWorkflowGenerator\<close>

record InputBinding =
  input_id :: string
  inp_value :: string

record WorkflowOutput =
  wo_variable_type :: string
  wo_name :: string

text \<open>
  \<^verbatim>\<open>prescatter\<close> is a dictionary read with \<^verbatim>\<open>items()\<close>: an association list in
  insertion order.
\<close>

record WorkflowStep =
  task_id :: string
  step_type :: string
  task_definition :: "Task option"
  step_inputs :: "InputBinding list"
  scatter :: "(string \<times> string) list"
  prescatter :: "(string \<times> (string \<times> string \<times> string) list) list"

record Workflow =
  wf_name :: string
  wf_inputs :: "Variable list"
  wf_outputs :: "WorkflowOutput list"
  wf_steps :: "WorkflowStep list"
  wf_subworkflows :: "WorkflowStep list"
  wf_structs :: "StructDefinition list"

text \<open>The instance: the workflow's attributes and the three accumulators.\<close>

record WdlWorkflowGenerator =
  gen_name :: string
  gen_inputs :: "Variable list"
  gen_outputs :: "WorkflowOutput list"
  gen_steps :: "WorkflowStep list"
  gen_subworkflows :: "WorkflowStep list"
  gen_structs :: "StructDefinition list"
  task_ids :: "string list"
  imported_wfs :: "string list"
  prepped_tasks :: "string list"

definition init_generator :: "Workflow \<Rightarrow> WdlWorkflowGenerator" where
  "init_generator workflow =
     \<lparr> gen_name = wf_name workflow, gen_inputs = wf_inputs workflow,
       gen_outputs = wf_outputs workflow, gen_steps = wf_steps workflow,
       gen_subworkflows = wf_subworkflows workflow, gen_structs = wf_structs workflow,
       task_ids = [], imported_wfs = [], prepped_tasks = [] \<rparr>"

subsection \<open>The pattern built from a task id\<close>

text \<open>
  \<^verbatim>\<open>re.sub(step.task_id + "\.", "", inp.input_id)\<close> compiles the task id as a regular
  expression.  The model covers the task ids in which \<^verbatim>\<open>.\<close> is the only special
  character: \<^verbatim>\<open>.\<close> matches any character but a newline, every other character
  matches itself, and a task id holding another special character of Python's
  \<^verbatim>\<open>re\<close> syntax is outside the model.  Every element of such a pattern matches
  exactly one character, so the leftmost match at a position is the only one.
\<close>

datatype pat = Lit char | AnyChar

definition re_special :: "char \<Rightarrow> bool" where
  "re_special c = (c \<in> set ''.^$*+?{}[]()|'' \<or> c = backslash)"

fun compile_task_id :: "string \<Rightarrow> pat list option" where
  "compile_task_id [] = Some []"
| "compile_task_id (c # cs) =
     (case compile_task_id cs of
        None \<Rightarrow> None
      | Some ps \<Rightarrow>
          if c = CHR ''.'' then Some (AnyChar # ps)
          else if re_special c then None
          else Some (Lit c # ps))"

fun pat_ok :: "pat \<Rightarrow> char \<Rightarrow> bool" where
  "pat_ok (Lit a) c = (a = c)"
| "pat_ok AnyChar c = (c \<noteq> CHR ''\<newline>'')"

fun pat_match :: "pat list \<Rightarrow> string \<Rightarrow> bool" where
  "pat_match [] s = True"
| "pat_match (p # ps) [] = False"
| "pat_match (p # ps) (c # cs) = (pat_ok p c \<and> pat_match ps cs)"

text \<open>\<^verbatim>\<open>re.sub(pattern, "", s)\<close> for a pattern of one or more one-character elements.\<close>

fun re_delete :: "pat list \<Rightarrow> string \<Rightarrow> string" where
  "re_delete ps [] = []"
| "re_delete ps (c # cs) =
     (if ps \<noteq> [] \<and> pat_match ps (c # cs)
      then re_delete ps (drop (length ps - 1) cs)
      else c # re_delete ps cs)"

definition strip_task_id :: "string \<Rightarrow> string \<Rightarrow> error + string" where
  "strip_task_id tid s =
     (case compile_task_id tid of
        None \<Rightarrow> Inl Unmodelled
      | Some ps \<Rightarrow> Inr (re_delete (ps @ [Lit CHR ''.'']) s))"

subsection \<open>Steps\<close>

definition format_scatter :: "(string \<times> string) list \<Rightarrow> string \<Rightarrow> string" where
  "format_scatter sc body =
     (if sc \<noteq> [] then
        (let parts = map (\<lambda>l. ''  '' @ l) (str_split CHR ''\<newline>'' body);
             scatter_parts = map (\<lambda>(x, y). x @ '' in '' @ y) sc
         in ''\<newline>    scatter ('' @ str_join ''\<newline>             '' scatter_parts @ '') {\<newline>''
            @ str_join ''\<newline>'' parts @ ''\<newline>    }\<newline>'')
      else body)"

definition prescatter_block :: "string \<times> (string \<times> string \<times> string) list \<Rightarrow> string" where
  "prescatter_block entry =
     (case entry of (base_rec, attrs) \<Rightarrow>
        (let base_rec_item = str_replace ''.'' ''_'' base_rec @ ''_item'';
             unpack_attrs = map (\<lambda>(new_name, orig_attr, vartype).
                                   ''  '' @ vartype @ '' '' @ new_name @ '' = ''
                                   @ base_rec_item @ ''.'' @ orig_attr) attrs
         in ''\<newline>scatter ('' @ base_rec_item @ '' in '' @ base_rec @ '') {\<newline>''
            @ str_join ''\<newline>'' unpack_attrs @ ''\<newline>}\<newline>''))"

definition format_prescatter :: "(string \<times> (string \<times> string \<times> string) list) list \<Rightarrow> string" where
  "format_prescatter ps = concat (map prescatter_block ps)"

fun binding_lines :: "string \<Rightarrow> nat \<Rightarrow> InputBinding list \<Rightarrow> error + string list" where
  "binding_lines tid i [] = Inr []"
| "binding_lines tid i (inp # inps) =
     (case strip_task_id tid (input_id inp) of
        Inl e \<Rightarrow> Inl e
      | Inr nm \<Rightarrow>
          (case binding_lines tid (Suc i) inps of
             Inl e \<Rightarrow> Inl e
           | Inr ls \<Rightarrow>
               Inr (((if i > 0 then ''          '' else []) @ nm @ ''='' @ inp_value inp) # ls)))"

definition call_block :: "string \<Rightarrow> string list \<Rightarrow> string" where
  "call_block tid lines =
     ''\<newline>    call '' @ tid @ '' {\<newline>        input: '' @ str_join '', \<newline>'' lines
     @ ''\<newline>    }\<newline>''"

text \<open>The text one step appends to \<^verbatim>\<open>steps\<close>.\<close>

definition format_step :: "WorkflowStep \<Rightarrow> error + string" where
  "format_step step =
     (if step_inputs step \<noteq> [] then
        (case binding_lines (task_id step) 0 (step_inputs step) of
           Inl e \<Rightarrow> Inl e
         | Inr lines \<Rightarrow>
             Inr (format_scatter (scatter step)
                    (format_prescatter (prescatter step) @ call_block (task_id step) lines)))
      else Inr (format_scatter (scatter step) (''call '' @ task_id step)))"

text \<open>
  One iteration of the loop in \<^verbatim>\<open>__format_steps\<close>: the accumulators are updated,
  then the step is rendered.  A raise ends the call; the model does not describe the
  instance after a raise.
\<close>

definition register_step :: "WorkflowStep \<Rightarrow> WdlWorkflowGenerator \<Rightarrow> error + WdlWorkflowGenerator" where
  "register_step step g =
     (let g1 = g\<lparr>task_ids := task_ids g @ [task_id step]\<rparr>
      in case task_definition step of
           None \<Rightarrow> Inr g1
         | Some task \<Rightarrow>
             if step_type step = ''task'' then
               (case task_generate_wdl (gen_structs g1) task of
                  Inl e \<Rightarrow> Inl e
                | Inr text \<Rightarrow> Inr (g1\<lparr>prepped_tasks := prepped_tasks g1 @ [text]\<rparr>))
             else
               (let base_task_id = last (str_split CHR ''.'' (task_id step))
                in Inr (g1\<lparr>imported_wfs := imported_wfs g1
                              @ [''import '' @ [dquote] @ base_task_id @ ''.wdl'' @ [dquote] @ '' as ''
                                  @ base_task_id]\<rparr>)))"

fun steps_loop ::
  "WorkflowStep list \<Rightarrow> WdlWorkflowGenerator \<Rightarrow> error + (string list \<times> WdlWorkflowGenerator)" where
  "steps_loop [] g = Inr ([], g)"
| "steps_loop (step # rest) g =
     (case register_step step g of
        Inl e \<Rightarrow> Inl e
      | Inr g1 \<Rightarrow>
          (case format_step step of
             Inl e \<Rightarrow> Inl e
           | Inr text \<Rightarrow>
               (case steps_loop rest g1 of
                  Inl e \<Rightarrow> Inl e
                | Inr (texts, g2) \<Rightarrow> Inr (text # texts, g2))))"

definition format_steps :: "WdlWorkflowGenerator \<Rightarrow> error + (string \<times> WdlWorkflowGenerator)" where
  "format_steps g =
     (case steps_loop (gen_steps g @ gen_subworkflows g) g of
        Inl e \<Rightarrow> Inl e
      | Inr (texts, g1) \<Rightarrow> Inr (str_join ''\<newline>'' texts, g1))"

subsection \<open>The workflow text\<close>

text \<open>
  \<^verbatim>\<open>__format_outputs\<close> returns \<^verbatim>\<open>None\<close> when there is no output, and the template's
  \<^verbatim>\<open>%s\<close> prints it as \<^verbatim>\<open>None\<close>.
\<close>

definition wf_format_outputs :: "WorkflowOutput list \<Rightarrow> string" where
  "wf_format_outputs outs =
     (if length outs > 0 then
        ''\<newline>   output {\<newline>     ''
        @ str_join ''\<newline>     ''
            (map (\<lambda>outp. wo_variable_type outp @ '' ''
                          @ last (str_split CHR ''.'' (wo_name outp)) @ '' = '' @ wo_name outp) outs)
        @ ''\<newline>   }\<newline>''
      else ''None'')"

definition format_structs :: "StructDefinition list \<Rightarrow> string" where
  "format_structs structs =
     (let out = concat (map (\<lambda>struct.
                   ''\<newline>struct '' @ struct_name struct @ '' {\<newline>''
                   @ str_join '',\<newline>'' (map (\<lambda>(k, v). '' '' @ k @ '': '' @ v) (struct_fields struct))
                   @ ''\<newline>}\<newline>'') structs)
      in if out \<noteq> [] then ''\<newline>'' @ out else out)"

definition workflow_template ::
  "string \<Rightarrow> string \<Rightarrow> string \<Rightarrow> string \<Rightarrow> string \<Rightarrow> string \<Rightarrow> string \<Rightarrow> string" where
  "workflow_template imports structs nm ins steps outs tasks =
     ''\<newline>'' @ imports @ ''\<newline>'' @ structs @ ''\<newline>\<newline>workflow '' @ nm @ '' {\<newline>    '' @ ins
     @ ''\<newline>    '' @ steps @ ''\<newline>    '' @ outs @ ''\<newline>}\<newline>'' @ tasks @ ''\<newline>''"

definition generate_wdl :: "WdlWorkflowGenerator \<Rightarrow> error + (string \<times> WdlWorkflowGenerator)" where
  "generate_wdl g =
     (case format_steps g of
        Inl e \<Rightarrow> Inl e
      | Inr (steps, g1) \<Rightarrow>
          Inr (workflow_template (str_join ''\<newline>'' (imported_wfs g1)) (format_structs (gen_structs g1))
                 (gen_name g1) (format_inputs (gen_inputs g)) steps (wf_format_outputs (gen_outputs g1))
                 (str_join ''\<newline>'' (prepped_tasks g1)),
               g1))"

section \<open>Vocabulary of the properties\<close>

text \<open>
  \<open>position_le p q\<close>: a token at position \<open>p\<close> may stand before a token at position
  \<open>q\<close>.  Explicit positions ascend and an absent position comes last.
\<close>

fun position_le :: "int option \<Rightarrow> int option \<Rightarrow> bool" where
  "position_le (Some a) (Some b) = (a \<le> b)"
| "position_le (Some a) None = True"
| "position_le None None = True"
| "position_le None (Some b) = False"

text \<open>\<open>before_base p\<close>: an explicit position below the base command's own position 0.\<close>

definition before_base :: "int option \<Rightarrow> bool" where
  "before_base p = (case p of Some a \<Rightarrow> a < 0 | None \<Rightarrow> False)"

text \<open>The number of \<^verbatim>\<open>envVar\<close> requirements, each of which inserts one token at the front.\<close>

definition envvar_count :: "Requirement list \<Rightarrow> nat" where
  "envvar_count reqs = length (filter (\<lambda>req. requirement_type req = Some ''envVar'') reqs)"

text \<open>
  A requirement the command can be built from: under the type \<^verbatim>\<open>envVar\<close> its value is a
  list of pairs.
\<close>

fun env_payload_ok :: "Requirement \<Rightarrow> bool" where
  "env_payload_ok req =
     (if requirement_type req = Some ''envVar''
      then (case req_value req of Some (EnvValue kvs) \<Rightarrow> True | _ \<Rightarrow> False)
      else True)"

text \<open>
  The two pieces of the text \<^verbatim>\<open>_format_scatter\<close> builds: the header of the declared
  scatter block, and a body whose lines are each indented by two spaces.
\<close>

definition indent_lines :: "string \<Rightarrow> string" where
  "indent_lines body = str_join ''\<newline>'' (map (\<lambda>l. ''  '' @ l) (str_split CHR ''\<newline>'' body))"

definition scatter_header :: "(string \<times> string) list \<Rightarrow> string" where
  "scatter_header sc =
     ''\<newline>    scatter ('' @ str_join ''\<newline>             '' (map (\<lambda>(x, y). x @ '' in '' @ y) sc)
     @ '') {\<newline>''"


text \<open>
  The binding names in the words of the property.  \<open>qualifier_at tid s\<close>: the text \<open>s\<close>
  begins with a match of the task id followed by a dot, where a dot inside the task id
  stands for any character but a newline and every other character for itself.
  \<open>delete_qualifiers tid s\<close> deletes every such match from \<open>s\<close>, left to right and
  without overlap.
\<close>

fun id_char_matches :: "char \<Rightarrow> char \<Rightarrow> bool" where
  "id_char_matches t c = (if t = CHR ''.'' then c \<noteq> CHR ''\<newline>'' else t = c)"

definition qualifier_at :: "string \<Rightarrow> string \<Rightarrow> bool" where
  "qualifier_at tid s =
     (length tid < length s \<and> list_all2 id_char_matches tid (take (length tid) s)
      \<and> s ! length tid = CHR ''.'')"


section \<open>Example descriptors\<close>

text \<open>Concrete descriptors at which the properties below are evaluated.\<close>

definition literal_task :: Task where
  "literal_task =
     \<lparr> task_name = ''t'', task_inputs = [],
       command = \<lparr> baseCommand = ''tool'',
         arguments = [\<lparr> arg_position = Some 0, arg_prefix = None, arg_separate = True,
                        arg_value = Some ''run'' \<rparr>],
         cmd_inputs = [\<lparr> ci_name = ''infile'', ci_variable_type = ''File'', ci_position = Some 1,
                         ci_prefix = Some ''-i'', ci_separate = True, ci_is_required = True,
                         ci_default = None, ci_separator = '' '' \<rparr>] \<rparr>,
       task_outputs = [], requirements = [], stdin = None, stdout = None \<rparr>"

definition std_input :: CommandInput where
  "std_input = \<lparr> ci_name = ''x'', ci_variable_type = ''File'', ci_position = Some 2,
                  ci_prefix = Some ''-f'', ci_separate = True, ci_is_required = True,
                  ci_default = None, ci_separator = '' '' \<rparr>"

definition flag_input :: CommandInput where
  "flag_input = \<lparr> ci_name = ''verbose'', ci_variable_type = ''Boolean'', ci_position = Some 0,
                  ci_prefix = Some ''-v'', ci_separate = True, ci_is_required = True,
                  ci_default = Some ''False'', ci_separator = '' '' \<rparr>"

definition flag_task :: Task where
  "flag_task = literal_task\<lparr>command := (command literal_task)\<lparr>cmd_inputs := flag_input # cmd_inputs (command literal_task)\<rparr>\<rparr>"

definition sparse_task :: Task where
  "sparse_task =
     \<lparr> task_name = ''t'', task_inputs = [],
       command = \<lparr> baseCommand = ''tool'',
         arguments = [\<lparr> arg_position = None, arg_prefix = None, arg_separate = True, arg_value = Some ''a'' \<rparr>,
                      \<lparr> arg_position = Some 2, arg_prefix = None, arg_separate = True, arg_value = Some ''b'' \<rparr>,
                      \<lparr> arg_position = None, arg_prefix = None, arg_separate = True, arg_value = Some ''c'' \<rparr>,
                      \<lparr> arg_position = Some (- 1), arg_prefix = None, arg_separate = True, arg_value = Some ''d'' \<rparr>],
         cmd_inputs = [std_input\<lparr>ci_position := Some 1\<rparr>] \<rparr>,
       task_outputs = [], requirements = [], stdin = None, stdout = None \<rparr>"

definition positioned_task :: Task where
  "positioned_task =
     \<lparr> task_name = ''t'', task_inputs = [],
       command = \<lparr> baseCommand = ''tool'',
         arguments = [\<lparr> arg_position = Some 5, arg_prefix = None, arg_separate = True, arg_value = Some ''run'' \<rparr>],
         cmd_inputs = [] \<rparr>,
       task_outputs = [], requirements = [], stdin = None, stdout = None \<rparr>"

definition struct_stdout_input :: CommandInput where
  "struct_stdout_input = \<lparr> ci_name = ''out'', ci_variable_type = ''Rec'', ci_position = None,
                         ci_prefix = None, ci_separate = True, ci_is_required = True,
                         ci_default = None, ci_separator = '' '' \<rparr>"

definition struct_stdout_task :: Task where
  "struct_stdout_task =
     \<lparr> task_name = ''t'', task_inputs = [],
       command = \<lparr> baseCommand = ''tool'', arguments = [],
         cmd_inputs = [struct_stdout_input] \<rparr>,
       task_outputs = [], requirements = [], stdin = None, stdout = Some ''out'' \<rparr>"

definition rec_struct :: StructDefinition where
  "rec_struct = \<lparr> struct_name = ''Rec'', struct_fields = [(''a'', ''File'')] \<rparr>"

definition stdout_input :: CommandInput where
  "stdout_input = \<lparr> ci_name = ''out'', ci_variable_type = ''File'', ci_position = Some 1,
                     ci_prefix = Some ''-o'', ci_separate = True, ci_is_required = True,
                     ci_default = Some ''o.txt'', ci_separator = '' '' \<rparr>"

definition stdout_task :: Task where
  "stdout_task = literal_task\<lparr>command := (command literal_task)\<lparr>cmd_inputs := [stdout_input]\<rparr>,
                               stdout := Some ''out''\<rparr>"

definition nested_step :: WorkflowStep where
  "nested_step =
     \<lparr> task_id = ''t'', step_type = ''task'', task_definition = None,
       step_inputs = [\<lparr> input_id = ''t.x'', inp_value = ''v'' \<rparr>],
       scatter = [(''s'', ''ss'')],
       prescatter = [(''rec'', [(''a'', ''fa'', ''File'')])] \<rparr>"




definition example_workflow :: Workflow where
  "example_workflow =
     \<lparr> wf_name = ''main'', wf_inputs = [], wf_outputs = [],
       wf_steps = [\<lparr> task_id = ''tool'', step_type = ''task'', task_definition = Some literal_task,
                     step_inputs = [], scatter = [], prescatter = [] \<rparr>],
       wf_subworkflows = [\<lparr> task_id = ''wf.sub'', step_type = ''workflow'',
                            task_definition = Some literal_task,
                            step_inputs = [], scatter = [], prescatter = [] \<rparr>],
       wf_structs = [] \<rparr>"

definition env_task :: Task where
  "env_task =
     \<lparr> task_name = ''t'', task_inputs = [],
       command = \<lparr> baseCommand = ''tool'',
         arguments = [\<lparr> arg_position = None, arg_prefix = None, arg_separate = True,
                        arg_value = Some ''late'' \<rparr>,
                      \<lparr> arg_position = Some 1, arg_prefix = None, arg_separate = True,
                        arg_value = Some ''run'' \<rparr>],
         cmd_inputs = [] \<rparr>,
       task_outputs = [],
       requirements = [\<lparr> requirement_type = Some ''envVar'',
                          req_value = Some (EnvValue [(''A'', ''1'')]) \<rparr>],
       stdin = None, stdout = None \<rparr>"


section \<open>Properties of the command synthesis\<close>

subsection \<open>Collecting the entries\<close>

lemma foldl_add_argument:
  "foldl add_argument acc args = (fst acc @ map arg_position args, snd acc @ map format_argument args)"
  by (induction args arbitrary: acc) (simp_all add: add_argument_def)

lemma foldl_add_input:
  "foldl (add_input structs out) acc cis =
     (fst acc @ map fst (List.map_filter (input_entry structs out) cis),
      snd acc @ map snd (List.map_filter (input_entry structs out) cis))"
  by (induction cis arbitrary: acc) (auto simp: add_input_def List.map_filter_simps split: option.splits)

lemma command_entries_eq:
  "command_entries structs task =
     (Some 0 # map arg_position (arguments (command task))
        @ map fst (List.map_filter (input_entry structs (stdout task)) (cmd_inputs (command task))),
      baseCommand (command task) # map format_argument (arguments (command task))
        @ map snd (List.map_filter (input_entry structs (stdout task)) (cmd_inputs (command task))))"
  by (simp add: command_entries_def foldl_add_argument foldl_add_input)

lemma map_filter_skip:
  "f x = None \<Longrightarrow> List.map_filter f (xs @ x # ys) = List.map_filter f (xs @ ys)"
  by (simp add: List.map_filter_def)

lemma command_entries_skip:
  assumes "input_entry structs (stdout task) ci = None"
    and "cmd_inputs (command task) = before @ ci # after"
  shows "command_entries structs (task\<lparr>command := (command task)\<lparr>cmd_inputs := before @ after\<rparr>\<rparr>)
           = command_entries structs task"
  using assms by (simp add: command_entries_eq map_filter_skip)

lemma format_command_skip:
  assumes "input_entry structs (stdout task) ci = None"
    and "cmd_inputs (command task) = before @ ci # after"
  shows "format_command structs (task\<lparr>command := (command task)\<lparr>cmd_inputs := before @ after\<rparr>\<rparr>)
           = format_command structs task"
  using command_entries_skip [OF assms]
  by (simp add: format_command_def command_tokens_def split: prod.splits sum.splits)

lemma command_tokens_skip:
  assumes "input_entry structs (stdout task) ci = None"
    and "cmd_inputs (command task) = before @ ci # after"
  shows "command_tokens structs (task\<lparr>command := (command task)\<lparr>cmd_inputs := before @ after\<rparr>\<rparr>)
           = command_tokens structs task"
  using command_entries_skip [OF assms]
  by (simp add: command_tokens_def split: prod.splits sum.splits)

subsection \<open>The order of the tokens\<close>

lemma position_le_key: "position_le p q \<longleftrightarrow> position_key p \<le> position_key q"
  by (cases p; cases q) (simp_all add: position_key_def less_eq_prod_def less_option_def less_eq_option_def)

lemma snd_enumerate_nth:
  "x \<in> set (enumerate 0 ps) \<Longrightarrow> snd x = ps ! fst x"
  by (cases x) (simp add: in_set_enumerate_eq)

lemma cmd_order_positions:
  "map ((!) ps) (cmd_order ps) = map snd (sort_key (\<lambda>x. position_key (snd x)) (enumerate 0 ps))"
  unfolding cmd_order_def map_map
  by (rule map_cong[OF refl]) (simp add: snd_enumerate_nth)

lemma cmd_order_mset: "mset (cmd_order ps) = mset [0..<length ps]"
proof -
  let ?S = "sort_key (\<lambda>x. position_key (snd x)) (enumerate 0 ps)"
  have "mset (map fst ?S) = image_mset fst (mset ?S)"
    by (rule mset_map)
  also have "\<dots> = image_mset fst (mset (enumerate 0 ps))"
    by (simp only: mset_sort)
  also have "\<dots> = mset (map fst (enumerate 0 ps))"
    by (rule mset_map [symmetric])
  also have "map fst (enumerate 0 ps) = [0..<length ps]"
    by (simp only: map_fst_enumerate add_0)
  finally show ?thesis
    unfolding cmd_order_def .
qed

lemma cmd_order_sorted: "sorted_wrt position_le (map ((!) ps) (cmd_order ps))"
proof -
  have "sorted (map (\<lambda>x. position_key (snd x)) (sort_key (\<lambda>x. position_key (snd x)) (enumerate 0 ps)))"
    by (rule sorted_sort_key)
  then have "sorted (map position_key (map ((!) ps) (cmd_order ps)))"
    by (simp add: cmd_order_positions o_def)
  then show ?thesis
    by (simp add: sorted_wrt_map position_le_key [abs_def] sorted_map)
qed

lemma cmd_order_stable:
  "filter (\<lambda>i. ps ! i = p) (cmd_order ps) = filter (\<lambda>i. ps ! i = p) [0..<length ps]"
proof -
  let ?f = "\<lambda>x :: nat \<times> int option. position_key (snd x)"
  have inj: "position_key a = position_key b \<longleftrightarrow> a = b" for a b
    by (auto simp: position_key_def)
  have "filter (\<lambda>x. ?f x = position_key p) (sort_key ?f (enumerate 0 ps))
          = filter (\<lambda>x. ?f x = position_key p) (enumerate 0 ps)"
    by (rule sort_key_stable)
  then have eq: "filter (\<lambda>x. snd x = p) (sort_key ?f (enumerate 0 ps)) = filter (\<lambda>x. snd x = p) (enumerate 0 ps)"
    by (simp add: inj)
  have "filter (\<lambda>i. ps ! i = p) (cmd_order ps) = map fst (filter (\<lambda>x. snd x = p) (sort_key ?f (enumerate 0 ps)))"
    unfolding cmd_order_def filter_map o_def
    by (rule arg_cong[where f = "map fst"], rule filter_cong[OF refl]) (simp add: snd_enumerate_nth)
  also have "\<dots> = map fst (filter (\<lambda>x. snd x = p) (enumerate 0 ps))"
    by (simp add: eq)
  also have "\<dots> = filter (\<lambda>i. ps ! i = p) (map fst (enumerate 0 ps))"
    unfolding filter_map o_def
    by (rule arg_cong[where f = "map fst"], rule filter_cong[OF refl]) (simp add: snd_enumerate_nth)
  finally show ?thesis by simp
qed

lemma insort_key_split:
  "insort_key f x ys = takeWhile (\<lambda>y. f y < f x) ys @ x # dropWhile (\<lambda>y. f y < f x) ys"
  by (induction ys) (auto simp: not_le)

lemma dropWhile_sorted_not_less:
  "sorted (map f ys) \<Longrightarrow> y \<in> set (dropWhile (\<lambda>y. f y < k) ys) \<Longrightarrow> \<not> f y < k"
  by (induction ys) (auto split: if_splits)

lemma before_base_key: "before_base p \<longleftrightarrow> position_key p < position_key (Some 0)"
  by (cases p) (simp_all add: before_base_def position_key_def less_prod_def less_eq_prod_def less_option_def less_eq_option_def)

lemma cmd_order_base:
  fixes rest :: "int option list"
  defines "ps \<equiv> Some 0 # rest"
  shows "\<exists>pre post. cmd_order ps = pre @ 0 # post \<and> 0 \<notin> set pre
            \<and> (\<forall>i \<in> set pre. before_base (ps ! i)) \<and> (\<forall>i \<in> set post. \<not> before_base (ps ! i))"
proof -
  let ?f = "\<lambda>x :: nat \<times> int option. position_key (snd x)"
  let ?S = "sort_key ?f (enumerate 1 rest)"
  let ?P = "\<lambda>y. ?f y < ?f (0, Some 0)"
  have mem: "x \<in> set ?S \<Longrightarrow> fst x \<noteq> 0 \<and> snd x = ps ! fst x" for x
    by (cases x) (auto simp: in_set_enumerate_eq ps_def)
  have order: "cmd_order ps = map fst (takeWhile ?P ?S) @ 0 # map fst (dropWhile ?P ?S)"
    by (simp add: cmd_order_def ps_def insort_key_split del: sort_key_simps)
       (simp add: insort_key_split)
  have pre: "before_base (ps ! i)" "i \<noteq> 0" if "i \<in> set (map fst (takeWhile ?P ?S))" for i
  proof -
    from that obtain x where x: "x \<in> set (takeWhile ?P ?S)" "i = fst x" by auto
    then have "?P x" "x \<in> set ?S" by (auto dest: set_takeWhileD)
    with x mem [of x] show "before_base (ps ! i)" "i \<noteq> 0" by (simp_all add: before_base_key)
  qed
  have post: "\<not> before_base (ps ! i)" if "i \<in> set (map fst (dropWhile ?P ?S))" for i
  proof -
    from that obtain x where x: "x \<in> set (dropWhile ?P ?S)" "i = fst x" by auto
    have "sorted (map ?f ?S)" by (rule sorted_sort_key)
    from dropWhile_sorted_not_less [OF this x(1)] have "\<not> ?P x" .
    moreover have "x \<in> set ?S" using x(1) by (auto dest: set_dropWhileD)
    ultimately show ?thesis using x mem [of x] by (simp add: before_base_key)
  qed
  show ?thesis
    using order pre post by blast
qed

subsection \<open>Environment variables, redirection and joining\<close>

lemma add_envvars_append:
  "add_envvars reqs parts = Inr r \<Longrightarrow> \<exists>env. length env = envvar_count reqs \<and> r = env @ parts"
proof (induction reqs arbitrary: parts)
  case Nil
  then show ?case by (simp add: envvar_count_def)
next
  case (Cons req reqs)
  show ?case
  proof (cases "requirement_type req = Some ''envVar''")
    case True
    with Cons.prems obtain t where t: "envvar_token (req_value req) = Inr t"
      and r: "add_envvars reqs (t # parts) = Inr r"
      by (auto split: sum.splits)
    from Cons.IH [OF r] obtain env where "length env = envvar_count reqs" "r = env @ t # parts"
      by blast
    then have "length (env @ [t]) = envvar_count (req # reqs) \<and> r = (env @ [t]) @ parts"
      using True by (simp add: envvar_count_def)
    then show ?thesis by blast
  next
    case False
    with Cons.prems have "add_envvars reqs parts = Inr r" by simp
    from Cons.IH [OF this] show ?thesis using False by (simp add: envvar_count_def)
  qed
qed

text \<open>The command is produced whenever the environment requirements are well formed.\<close>

lemma add_envvars_total:
  "list_all env_payload_ok reqs \<Longrightarrow> \<exists>r. add_envvars reqs parts = Inr r"
  by (induction reqs arbitrary: parts) (auto split: option.splits payload.splits)

lemma format_command_total:
  assumes "list_all env_payload_ok (requirements task)"
  shows "\<exists>toks. command_tokens structs task = Inr toks
              \<and> format_command structs task = Inr (str_join line_continuation toks)"
proof -
  obtain ps parts where e: "command_entries structs task = (ps, parts)"
    by (cases "command_entries structs task")
  from add_envvars_total [OF assms] obtain r where
    "add_envvars (requirements task) (ordered_command_parts ps parts) = Inr r"
    by blast
  then show ?thesis
    by (simp add: command_tokens_def format_command_def e)
qed

lemma str_join_Cons:
  "ys \<noteq> [] \<Longrightarrow> str_join sep (x # ys) = x @ sep @ str_join sep ys"
  by (cases ys) simp_all

lemma str_join_snoc_suffix: "suffix t (str_join sep (xs @ [t]))"
  by (induction xs) (simp_all add: str_join_Cons suffix_appendI)

lemma ordered_command_parts_set:
  assumes "length parts = length ps"
  shows "set (ordered_command_parts ps parts) = set parts"
proof -
  have "mset (ordered_command_parts ps parts) = image_mset ((!) parts) (mset (cmd_order ps))"
    by (simp add: ordered_command_parts_def)
  also have "\<dots> = image_mset ((!) parts) (mset [0..<length parts])"
    by (simp only: cmd_order_mset assms)
  also have "\<dots> = mset (map ((!) parts) [0..<length parts])"
    by (rule mset_map [symmetric])
  also have "\<dots> = mset parts"
    by (simp only: map_nth)
  finally show ?thesis
    by (metis set_mset_mset)
qed

lemma map_filter_mem:
  "x \<in> set xs \<Longrightarrow> f x = Some y \<Longrightarrow> y \<in> set (List.map_filter f xs)"
  by (induction xs) (auto simp: List.map_filter_simps split: option.splits)

lemma struct_entry:
  assumes "is_struct structs (ci_variable_type ci)"
    and "\<not> (ci_variable_type ci = ''Boolean''
           \<and> (ci_default ci = Some ''False'' \<or> ci_prefix ci = None))"
  shows "input_entry structs out ci
           = Some (ci_position ci, ''${write_struct('' @ ci_name ci @ '')}'')"
  unfolding input_entry_def using assms by (simp only: if_False if_True)

lemma entry_in_parts:
  assumes "ci \<in> set (cmd_inputs (command task))"
    and "input_entry structs (stdout task) ci = Some (p, t)"
  shows "t \<in> set (snd (command_entries structs task))"
proof -
  have "(p, t) \<in> set (List.map_filter (input_entry structs (stdout task)) (cmd_inputs (command task)))"
    using assms by (rule map_filter_mem)
  then have "snd (p, t) \<in> snd ` set (List.map_filter (input_entry structs (stdout task))
                                        (cmd_inputs (command task)))"
    by (rule imageI)
  then show ?thesis
    by (simp add: command_entries_eq)
qed

lemma entry_in_tokens:
  assumes "command_tokens structs task = Inr toks"
    and "ci \<in> set (cmd_inputs (command task))"
    and "input_entry structs (stdout task) ci = Some (p, t)"
  shows "t \<in> set toks"
proof -
  obtain ps parts where e: "command_entries structs task = (ps, parts)"
    by (cases "command_entries structs task")
  have len: "length parts = length ps"
    using e by (auto simp: command_entries_eq)
  have "t \<in> set parts"
    using entry_in_parts [OF assms(2,3)] e by simp
  with len have mem: "t \<in> set (ordered_command_parts ps parts)"
    by (simp add: ordered_command_parts_set)
  from assms(1) obtain r where r: "add_envvars (requirements task) (ordered_command_parts ps parts) = Inr r"
    and toks: "toks = add_stdout (stdout task) r"
    by (auto simp: command_tokens_def e split: sum.splits)
  from add_envvars_append [OF r] obtain env where "r = env @ ordered_command_parts ps parts"
    by blast
  with mem toks show ?thesis
    by (simp add: add_stdout_def split: option.splits)
qed

subsection \<open>Claims about the command\<close>

text \<open>
  C1.  Not every token without a position comes after the positioned ones: the token of
  an environment requirement has no position and stands first, before the base
  command (position 0) and the argument at position 1.
\<close>

theorem C1_env_token_counterexample:
  "command_entries [] env_task = ([Some 0, None, Some 1], [''tool'', ''late'', ''run''])
   \<and> command_tokens [] env_task = Inr [''A='' @ [squote] @ ''1'' @ [squote], ''tool'', ''run'', ''late'']
   \<and> ''A='' @ [squote] @ ''1'' @ [squote] \<notin> set (snd (command_entries [] env_task))"
  by code_simp

text \<open>
  C1, as the code has it.  When the command is produced, its tokens are the environment
  tokens, then the tokens collected from the base command (position 0), the arguments
  and the inputs, then the redirection token if the captured output is set.  The
  collected tokens stand in the order of the stable sort: it is a permutation of the
  collected entries, explicit positions are non-decreasing, every collected entry
  without a position comes after all positioned ones, and the entries without a
  position keep their original relative order.
\<close>

theorem C1_token_order:
  assumes "command_tokens structs task = Inr toks"
  shows "\<exists>env.
           (let entries = List.map_filter (input_entry structs (stdout task)) (cmd_inputs (command task));
                command_position = Some 0 # map arg_position (arguments (command task)) @ map fst entries;
                command_parts = baseCommand (command task)
                                # map format_argument (arguments (command task)) @ map snd entries;
                ord = cmd_order command_position
            in length env = envvar_count (requirements task)
             \<and> toks = env @ map ((!) command_parts) ord
                        @ (case stdout task of None \<Rightarrow> [] | Some s \<Rightarrow> [redirect_token s])
             \<and> format_command structs task = Inr (str_join line_continuation toks)
             \<and> length command_parts = length command_position
             \<and> mset ord = mset [0..<length command_position]
             \<and> sorted_wrt position_le (map ((!) command_position) ord)
             \<and> filter (\<lambda>i. command_position ! i = None) ord
                 = filter (\<lambda>i. command_position ! i = None) [0..<length command_position])"
proof -
  let ?entries = "List.map_filter (input_entry structs (stdout task)) (cmd_inputs (command task))"
  let ?ps = "Some 0 # map arg_position (arguments (command task)) @ map fst ?entries"
  let ?parts = "baseCommand (command task) # map format_argument (arguments (command task)) @ map snd ?entries"
  have e: "command_entries structs task = (?ps, ?parts)"
    by (rule command_entries_eq)
  from assms obtain r where r: "add_envvars (requirements task) (ordered_command_parts ?ps ?parts) = Inr r"
    and toks: "toks = add_stdout (stdout task) r"
    by (auto simp: command_tokens_def e split: sum.splits)
  from add_envvars_append [OF r] obtain env where env: "length env = envvar_count (requirements task)"
    "r = env @ ordered_command_parts ?ps ?parts" by blast
  have shape: "toks = env @ map ((!) ?parts) (cmd_order ?ps)
                 @ (case stdout task of None \<Rightarrow> [] | Some s \<Rightarrow> [redirect_token s])"
    using toks env(2) by (simp add: add_stdout_def ordered_command_parts_def split: option.splits)
  have fc: "format_command structs task = Inr (str_join line_continuation toks)"
    using assms by (simp add: format_command_def)
  have len: "length ?parts = length ?ps" by simp
  show ?thesis
    unfolding Let_def
    using env(1) shape fc len cmd_order_mset [of ?ps] cmd_order_sorted [of ?ps] cmd_order_stable [of ?ps None]
    by (intro exI [of _ env] conjI)
qed

theorem C1_token_order_witness:
  "command_tokens [] env_task = Inr [''A='' @ [squote] @ ''1'' @ [squote], ''tool'', ''run'', ''late'']
   \<and> envvar_count (requirements env_task) = 1
   \<and> cmd_order [Some 0, None, Some 1] = [0, 2, 1]
   \<and> map ((!) [''tool'', ''late'', ''run'']) (cmd_order [Some 0, None, Some 1]) = [''tool'', ''run'', ''late'']
   \<and> sorted_wrt position_le (map ((!) [Some 0, None, Some 1]) (cmd_order [Some 0, None, Some 1]))"
proof -
  have toks: "command_tokens [] env_task = Inr [''A='' @ [squote] @ ''1'' @ [squote], ''tool'', ''run'', ''late'']"
    by code_simp
  have shape: "List.map_filter (input_entry [] (stdout env_task)) (cmd_inputs (command env_task)) = []"
    "map arg_position (arguments (command env_task)) = [None, Some 1]"
    "map format_argument (arguments (command env_task)) = [''late'', ''run'']"
    "baseCommand (command env_task) = ''tool''"
    by (simp_all add: env_task_def List.map_filter_simps format_argument_def)
  have ev: "envvar_count (requirements env_task) = 1" "cmd_order [Some 0, None, Some 1] = [0, 2, 1]"
    by code_simp+
  from C1_token_order [OF toks] obtain env where
    "sorted_wrt position_le (map ((!) [Some 0, None, Some 1]) (cmd_order [Some 0, None, Some 1]))"
    unfolding Let_def shape by auto
  with toks ev show ?thesis
    by simp
qed

text \<open>An instance with sparse positions, one of them negative.\<close>

lemma sparse_positions_example:
  "command_entries [] sparse_task
     = ([Some 0, None, Some 2, None, Some (- 1), Some 1], [''tool'', ''a'', ''b'', ''c'', ''d'', ''-f ${x}''])
   \<and> command_tokens [] sparse_task = Inr [''d'', ''tool'', ''-f ${x}'', ''b'', ''a'', ''c'']"
  by code_simp

text \<open>
  C3.  The base command is not seeded with an absent position: with one argument at
  position 5, the base command carries position 0 and its token comes first, before
  the explicitly positioned argument.
\<close>

theorem C3_base_absent_counterexample:
  "fst (command_entries [] positioned_task) ! 0 \<noteq> None
   \<and> fst (command_entries [] positioned_task) = [Some 0, Some 5]
   \<and> cmd_order (fst (command_entries [] positioned_task)) = [0, 1]
   \<and> command_tokens [] positioned_task = Inr [''tool'', ''run'']"
  by code_simp

text \<open>
  C3, as the code has it.  The two lists are seeded with position 0 and the base
  command.  In the sorted order the base command's token comes after exactly the
  tokens whose explicit position is negative; every token whose position is absent
  or at least 0 comes after it.
\<close>

theorem C3_base_at_zero:
  "case command_entries structs task of
     (command_position, command_parts) \<Rightarrow>
       command_position ! 0 = Some 0 \<and> command_parts ! 0 = baseCommand (command task)
     \<and> (\<exists>pre post.
           cmd_order command_position = pre @ 0 # post
         \<and> ordered_command_parts command_position command_parts
             = map ((!) command_parts) pre @ baseCommand (command task) # map ((!) command_parts) post
         \<and> list_all (\<lambda>i. before_base (command_position ! i)) pre
         \<and> list_all (\<lambda>i. \<not> before_base (command_position ! i)) post)"
proof -
  obtain rest parts where e: "command_entries structs task = (Some 0 # rest, baseCommand (command task) # parts)"
    by (simp add: command_entries_eq)
  from cmd_order_base [of rest] obtain pre post where
    order: "cmd_order (Some 0 # rest) = pre @ 0 # post"
    and pre: "\<forall>i \<in> set pre. before_base ((Some 0 # rest) ! i)"
    and post: "\<forall>i \<in> set post. \<not> before_base ((Some 0 # rest) ! i)"
    by blast
  let ?parts = "baseCommand (command task) # parts"
  have "cmd_order (Some 0 # rest) = pre @ 0 # post
      \<and> ordered_command_parts (Some 0 # rest) ?parts
          = map ((!) ?parts) pre @ baseCommand (command task) # map ((!) ?parts) post
      \<and> list_all (\<lambda>i. before_base ((Some 0 # rest) ! i)) pre
      \<and> list_all (\<lambda>i. \<not> before_base ((Some 0 # rest) ! i)) post"
    using order pre post by (simp add: ordered_command_parts_def list_all_iff)
  then have "\<exists>pre post. cmd_order (Some 0 # rest) = pre @ 0 # post
      \<and> ordered_command_parts (Some 0 # rest) ?parts
          = map ((!) ?parts) pre @ baseCommand (command task) # map ((!) ?parts) post
      \<and> list_all (\<lambda>i. before_base ((Some 0 # rest) ! i)) pre
      \<and> list_all (\<lambda>i. \<not> before_base ((Some 0 # rest) ! i)) post"
    by blast
  then show ?thesis
    unfolding e by simp
qed

text \<open>
  C4.  A boolean command input whose default is the string \<^verbatim>\<open>False\<close> or whose prefix is
  absent appends nothing to either list, whatever its position: the entries and the
  command are those of the task without that input.
\<close>

theorem C4_boolean_elision:
  assumes "ci_variable_type ci = ''Boolean''"
    and "ci_default ci = Some ''False'' \<or> ci_prefix ci = None"
    and "cmd_inputs (command task) = before @ ci # after"
  shows "input_entry structs out ci = None
       \<and> add_input structs out acc ci = acc
       \<and> command_entries structs task
           = command_entries structs (task\<lparr>command := (command task)\<lparr>cmd_inputs := before @ after\<rparr>\<rparr>)
       \<and> format_command structs task
           = format_command structs (task\<lparr>command := (command task)\<lparr>cmd_inputs := before @ after\<rparr>\<rparr>)"
proof -
  have none: "input_entry structs out ci = None" for out
    using assms(1,2) by (auto simp: input_entry_def)
  show ?thesis
    using none command_entries_skip [OF none assms(3)] format_command_skip [OF none assms(3)]
    by (simp add: add_input_def)
qed

theorem C4_boolean_elision_witness:
  "ci_variable_type flag_input = ''Boolean'' \<and> ci_default flag_input = Some ''False''
   \<and> ci_position flag_input = Some 0
   \<and> cmd_inputs (command flag_task) = [] @ flag_input # cmd_inputs (command literal_task)
   \<and> input_entry [] None flag_input = None
   \<and> format_command [] flag_task = format_command [] literal_task"
  using C4_boolean_elision [of flag_input flag_task "[]" "cmd_inputs (command literal_task)" "[]" None]
  by (simp add: flag_input_def flag_task_def literal_task_def)

text \<open>
  C5.  The command input named as the captured output is rendered inline when its type
  is a struct: the struct test comes before the test on the name.
\<close>

theorem C5_struct_stdout_counterexample:
  "stdout struct_stdout_task = Some ''out''
   \<and> map ci_name (cmd_inputs (command struct_stdout_task)) = [''out'']
   \<and> map (input_entry [rec_struct] (stdout struct_stdout_task))
         (cmd_inputs (command struct_stdout_task)) \<noteq> [None]
   \<and> command_tokens [rec_struct] struct_stdout_task
       = Inr [''tool'', ''${write_struct(out)}'', ''> ${out}'']"
  by code_simp

text \<open>
  C5, as the code has it.  When the command is produced, its tokens are the
  environment tokens, then the ordered entries, then the redirection token if and only
  if the captured output is set; the text then ends with that token.  The input named
  as the captured output contributes no token when its type is not a struct.  When its
  type is a struct and it is not elided as a boolean flag, it is rendered inline as the
  struct token at its own position.
\<close>

theorem C5_stdout_redirect:
  assumes "command_tokens structs task = Inr toks"
  shows "(\<exists>env. length env = envvar_count (requirements task)
            \<and> toks = env @ (case command_entries structs task of
                               (command_position, command_parts) \<Rightarrow>
                                 ordered_command_parts command_position command_parts)
                         @ (case stdout task of None \<Rightarrow> [] | Some s \<Rightarrow> [redirect_token s]))
       \<and> format_command structs task = Inr (str_join line_continuation toks)
       \<and> (\<forall>s. stdout task = Some s \<longrightarrow>
              last toks = redirect_token s
            \<and> suffix (redirect_token s) (str_join line_continuation toks))
       \<and> (\<forall>ci before after.
              Some (ci_name ci) = stdout task \<and> \<not> is_struct structs (ci_variable_type ci)
            \<and> cmd_inputs (command task) = before @ ci # after \<longrightarrow>
              input_entry structs (stdout task) ci = None
            \<and> command_tokens structs
                 (task\<lparr>command := (command task)\<lparr>cmd_inputs := before @ after\<rparr>\<rparr>) = Inr toks)
       \<and> (\<forall>ci.
              Some (ci_name ci) = stdout task \<and> is_struct structs (ci_variable_type ci)
            \<and> \<not> (ci_variable_type ci = ''Boolean''
                  \<and> (ci_default ci = Some ''False'' \<or> ci_prefix ci = None))
            \<and> ci \<in> set (cmd_inputs (command task)) \<longrightarrow>
              input_entry structs (stdout task) ci
                = Some (ci_position ci, ''${write_struct('' @ ci_name ci @ '')}'')
            \<and> ''${write_struct('' @ ci_name ci @ '')}'' \<in> set toks)"
proof -
  obtain ps parts where e: "command_entries structs task = (ps, parts)"
    by (cases "command_entries structs task")
  from assms obtain r where r: "add_envvars (requirements task) (ordered_command_parts ps parts) = Inr r"
    and toks: "toks = add_stdout (stdout task) r"
    by (auto simp: command_tokens_def e split: sum.splits)
  from add_envvars_append [OF r] obtain env where env: "length env = envvar_count (requirements task)"
    "r = env @ ordered_command_parts ps parts" by blast
  have shape: "toks = env @ ordered_command_parts ps parts
                 @ (case stdout task of None \<Rightarrow> [] | Some s \<Rightarrow> [redirect_token s])"
    using toks env(2) by (simp add: add_stdout_def split: option.splits)
  have 1: "\<exists>env. length env = envvar_count (requirements task)
            \<and> toks = env @ (case command_entries structs task of
                               (command_position, command_parts) \<Rightarrow>
                                 ordered_command_parts command_position command_parts)
                         @ (case stdout task of None \<Rightarrow> [] | Some s \<Rightarrow> [redirect_token s])"
    using env(1) shape by (auto simp: e)
  have 2: "format_command structs task = Inr (str_join line_continuation toks)"
    using assms by (simp add: format_command_def)
  have 3: "last toks = redirect_token s \<and> suffix (redirect_token s) (str_join line_continuation toks)"
    if "stdout task = Some s" for s
  proof -
    from that toks have "toks = r @ [redirect_token s]" by (simp add: add_stdout_def)
    then show ?thesis by (simp add: str_join_snoc_suffix)
  qed
  have 4: "input_entry structs (stdout task) ci = None
            \<and> command_tokens structs
                 (task\<lparr>command := (command task)\<lparr>cmd_inputs := before @ after\<rparr>\<rparr>) = Inr toks"
    if "Some (ci_name ci) = stdout task" "\<not> is_struct structs (ci_variable_type ci)"
       "cmd_inputs (command task) = before @ ci # after" for ci before after
  proof -
    have none: "input_entry structs (stdout task) ci = None"
      using that(1,2) by (simp add: input_entry_def)
    with command_tokens_skip [OF none that(3)] assms show ?thesis by simp
  qed
  have 5: "input_entry structs (stdout task) ci
                = Some (ci_position ci, ''${write_struct('' @ ci_name ci @ '')}'')
            \<and> ''${write_struct('' @ ci_name ci @ '')}'' \<in> set toks"
    if "is_struct structs (ci_variable_type ci)"
       "\<not> (ci_variable_type ci = ''Boolean''
           \<and> (ci_default ci = Some ''False'' \<or> ci_prefix ci = None))"
       "ci \<in> set (cmd_inputs (command task))" for ci
  proof -
    have entry: "input_entry structs (stdout task) ci
                = Some (ci_position ci, ''${write_struct('' @ ci_name ci @ '')}'')"
      using that(1,2) by (rule struct_entry)
    from entry_in_tokens [OF assms that(3) entry] entry show ?thesis
      by (rule conjI [rotated])
  qed
  have all3: "\<forall>s. stdout task = Some s \<longrightarrow>
              last toks = redirect_token s
            \<and> suffix (redirect_token s) (str_join line_continuation toks)"
  proof (intro allI impI)
    fix s
    assume "stdout task = Some s"
    then show "last toks = redirect_token s
            \<and> suffix (redirect_token s) (str_join line_continuation toks)"
      by (rule 3)
  qed
  have all4: "\<forall>ci before after.
              Some (ci_name ci) = stdout task \<and> \<not> is_struct structs (ci_variable_type ci)
            \<and> cmd_inputs (command task) = before @ ci # after \<longrightarrow>
              input_entry structs (stdout task) ci = None
            \<and> command_tokens structs
                 (task\<lparr>command := (command task)\<lparr>cmd_inputs := before @ after\<rparr>\<rparr>) = Inr toks"
  proof (intro allI impI, elim conjE)
    fix ci before after
    assume "Some (ci_name ci) = stdout task" "\<not> is_struct structs (ci_variable_type ci)"
      "cmd_inputs (command task) = before @ ci # after"
    then show "input_entry structs (stdout task) ci = None
            \<and> command_tokens structs
                 (task\<lparr>command := (command task)\<lparr>cmd_inputs := before @ after\<rparr>\<rparr>) = Inr toks"
      by (rule 4)
  qed
  have all5: "\<forall>ci.
              Some (ci_name ci) = stdout task \<and> is_struct structs (ci_variable_type ci)
            \<and> \<not> (ci_variable_type ci = ''Boolean''
                  \<and> (ci_default ci = Some ''False'' \<or> ci_prefix ci = None))
            \<and> ci \<in> set (cmd_inputs (command task)) \<longrightarrow>
              input_entry structs (stdout task) ci
                = Some (ci_position ci, ''${write_struct('' @ ci_name ci @ '')}'')
            \<and> ''${write_struct('' @ ci_name ci @ '')}'' \<in> set toks"
  proof (intro allI impI, elim conjE)
    fix ci
    assume "is_struct structs (ci_variable_type ci)"
      "\<not> (ci_variable_type ci = ''Boolean''
                  \<and> (ci_default ci = Some ''False'' \<or> ci_prefix ci = None))"
      "ci \<in> set (cmd_inputs (command task))"
    then show "input_entry structs (stdout task) ci
                = Some (ci_position ci, ''${write_struct('' @ ci_name ci @ '')}'')
            \<and> ''${write_struct('' @ ci_name ci @ '')}'' \<in> set toks"
      by (rule 5)
  qed
  from 1 2 all3 all4 all5 show ?thesis
    by (intro conjI)
qed

theorem C5_stdout_redirect_witness:
  "command_tokens [] stdout_task = Inr [''tool'', ''run'', ''> ${out}'']
   \<and> stdout stdout_task = Some ''out''
   \<and> Some (ci_name stdout_input) = stdout stdout_task
   \<and> \<not> is_struct [] (ci_variable_type stdout_input)
   \<and> cmd_inputs (command stdout_task) = [] @ stdout_input # []
   \<and> last [''tool'', ''run'', ''> ${out}''] = redirect_token ''out''
   \<and> suffix (redirect_token ''out'') (str_join line_continuation [''tool'', ''run'', ''> ${out}''])
   \<and> input_entry [] (stdout stdout_task) stdout_input = None
   \<and> command_tokens []
        (stdout_task\<lparr>command := (command stdout_task)\<lparr>cmd_inputs := [] @ []\<rparr>\<rparr>)
        = Inr [''tool'', ''run'', ''> ${out}'']
   \<and> command_tokens [rec_struct] struct_stdout_task
        = Inr [''tool'', ''${write_struct(out)}'', ''> ${out}'']
   \<and> Some (ci_name struct_stdout_input) = stdout struct_stdout_task
   \<and> is_struct [rec_struct] (ci_variable_type struct_stdout_input)
   \<and> ci_variable_type struct_stdout_input \<noteq> ''Boolean''
   \<and> struct_stdout_input \<in> set (cmd_inputs (command struct_stdout_task))
   \<and> input_entry [rec_struct] (stdout struct_stdout_task) struct_stdout_input
        = Some (ci_position struct_stdout_input,
                ''${write_struct('' @ ci_name struct_stdout_input @ '')}'')
   \<and> ''${write_struct('' @ ci_name struct_stdout_input @ '')}''
        \<in> set [''tool'', ''${write_struct(out)}'', ''> ${out}'']"
proof -
  have toks: "command_tokens [] stdout_task = Inr [''tool'', ''run'', ''> ${out}'']"
    by code_simp
  have f1: "stdout stdout_task = Some ''out''"
    and f2: "Some (ci_name stdout_input) = stdout stdout_task"
    and f3: "\<not> is_struct [] (ci_variable_type stdout_input)"
    and f4: "cmd_inputs (command stdout_task) = [] @ stdout_input # []"
    by (simp_all add: stdout_task_def stdout_input_def is_struct_def)
  have stoks: "command_tokens [rec_struct] struct_stdout_task
        = Inr [''tool'', ''${write_struct(out)}'', ''> ${out}'']"
    by code_simp
  have s1: "Some (ci_name struct_stdout_input) = stdout struct_stdout_task"
    and s2: "is_struct [rec_struct] (ci_variable_type struct_stdout_input)"
    and s3: "ci_variable_type struct_stdout_input \<noteq> ''Boolean''"
    and s4: "struct_stdout_input \<in> set (cmd_inputs (command struct_stdout_task))"
    by (simp_all add: struct_stdout_task_def struct_stdout_input_def is_struct_def rec_struct_def)
  from s3 have nb: "\<not> (ci_variable_type struct_stdout_input = ''Boolean''
      \<and> (ci_default struct_stdout_input = Some ''False'' \<or> ci_prefix struct_stdout_input = None))"
    by simp
  note t = C5_stdout_redirect [OF toks]
  note t3 = t [THEN conjunct2, THEN conjunct2, THEN conjunct1, rule_format, OF f1]
  note t4 = t [THEN conjunct2, THEN conjunct2, THEN conjunct2, THEN conjunct1, rule_format,
      OF conjI [OF f2 conjI [OF f3 f4]]]
  note u = C5_stdout_redirect [OF stoks]
  note u5 = u [THEN conjunct2, THEN conjunct2, THEN conjunct2, THEN conjunct2, rule_format,
      OF conjI [OF s1 conjI [OF s2 conjI [OF nb s4]]]]
  from toks f1 f2 f3 f4 t3 [THEN conjunct1] t3 [THEN conjunct2] t4 [THEN conjunct1]
    t4 [THEN conjunct2] stoks s1 s2 s3 s4 u5 [THEN conjunct1] u5 [THEN conjunct2]
  show ?thesis
    by (intro conjI)
qed

text \<open>
  C2.  For the literal task (base command \<^verbatim>\<open>tool\<close>, one argument \<^verbatim>\<open>run\<close> at position 0,
  one required \<^verbatim>\<open>File\<close> input \<^verbatim>\<open>infile\<close> at position 1 with prefix \<^verbatim>\<open>-i\<close>) the
  command is not the text whose continuation lines are indented by four spaces.
\<close>

theorem C2_literal_counterexample:
  "format_command [] literal_task \<noteq>
     Inr (''tool '' @ [backslash] @ ''\<newline>    run '' @ [backslash] @ ''\<newline>    -i ${infile}'')"
  by code_simp

text \<open>
  C2, as the code has it.  The three tokens \<^verbatim>\<open>tool\<close>, \<^verbatim>\<open>run\<close> and \<^verbatim>\<open>-i ${infile}\<close> are
  joined by a space, a backslash, a newline and eight spaces.
\<close>

theorem C2_literal_eight_spaces:
  "format_command [] literal_task =
     Inr (''tool '' @ [backslash] @ ''\<newline>        run '' @ [backslash]
          @ ''\<newline>        -i ${infile}'')"
  by code_simp



section \<open>Properties of the workflow composition\<close>

subsection \<open>Splitting, joining and indenting\<close>

lemma split_acc_append:
  "split_acc d cur (a @ d # b) = split_acc d cur a @ split_acc d [] b"
  by (induction a arbitrary: cur) simp_all

lemma split_acc_nonempty: "split_acc d cur s \<noteq> []"
  by (induction s arbitrary: cur) simp_all


lemma str_join_append:
  "xs \<noteq> [] \<Longrightarrow> ys \<noteq> [] \<Longrightarrow> str_join sep (xs @ ys) = str_join sep xs @ sep @ str_join sep ys"
proof (induction xs)
  case Nil
  then show ?case by simp
next
  case (Cons x xs)
  then show ?case
    by (cases xs; cases ys) simp_all
qed

lemma indent_lines_append:
  "indent_lines (a @ ''\<newline>'' @ b) = indent_lines a @ ''\<newline>'' @ indent_lines b"
  by (simp add: indent_lines_def str_split_def split_acc_append str_join_append split_acc_nonempty)


lemma format_scatter_eq:
  "format_scatter sc body =
     (if sc \<noteq> [] then scatter_header sc @ indent_lines body @ ''\<newline>    }\<newline>'' else body)"
  unfolding format_scatter_def scatter_header_def indent_lines_def Let_def
  by (simp only: append_assoc)

lemma prescatter_block_shape:
  "\<exists>b. prescatter_block e = ''\<newline>s'' @ b @ ''\<newline>''"
  by (cases e) (simp add: prescatter_block_def Let_def)

lemma format_prescatter_shape:
  assumes "ps \<noteq> []"
  shows "\<exists>b. format_prescatter ps = ''\<newline>s'' @ b @ ''\<newline>''"
proof (cases ps)
  case Nil
  with assms show ?thesis by simp
next
  case (Cons e es)
  obtain b where b: "prescatter_block e = ''\<newline>s'' @ b @ ''\<newline>''"
    using prescatter_block_shape by blast
  show ?thesis
  proof (cases es rule: rev_cases)
    case Nil
    with Cons b show ?thesis by (simp add: format_prescatter_def)
  next
    case (snoc es' e')
    obtain b' where b': "prescatter_block e' = ''\<newline>s'' @ b' @ ''\<newline>''"
      using prescatter_block_shape by blast
    have "format_prescatter ps = ''\<newline>s'' @ (b @ ''\<newline>'' @ concat (map prescatter_block es') @ ''\<newline>s'' @ b') @ ''\<newline>''"
      using Cons snoc b b' by (simp add: format_prescatter_def)
    then show ?thesis by blast
  qed
qed

subsection \<open>Stripping the task id\<close>





lemma qualifier_at_Nil: "qualifier_at [] s \<longleftrightarrow> prefix ''.'' s"
  by (cases s) (auto simp: qualifier_at_def)












text \<open>A step is rendered whenever its task id is inside the modelled patterns.\<close>

lemma compile_task_id_total:
  "list_all (\<lambda>c. c = CHR ''.'' \<or> \<not> re_special c) tid \<Longrightarrow> \<exists>ps. compile_task_id tid = Some ps"
  by (induction tid) auto

lemma binding_lines_total:
  assumes "list_all (\<lambda>c. c = CHR ''.'' \<or> \<not> re_special c) tid"
  shows "\<exists>ls. binding_lines tid i inps = Inr ls"
proof -
  from compile_task_id_total [OF assms] obtain ps where ps: "compile_task_id tid = Some ps"
    by blast
  show ?thesis
  proof (induction inps arbitrary: i)
    case Nil
    show ?case by simp
  next
    case (Cons inp inps)
    from Cons.IH [of "Suc i"] obtain ls where "binding_lines tid (Suc i) inps = Inr ls"
      by blast
    then show ?case
      using ps by (simp add: strip_task_id_def)
  qed
qed

lemma format_step_total:
  assumes "list_all (\<lambda>c. c = CHR ''.'' \<or> \<not> re_special c) (task_id step)"
  shows "\<exists>rendered. format_step step = Inr rendered"
  using binding_lines_total [OF assms, of 0 "step_inputs step"]
  by (auto simp: format_step_def)

text \<open>The dot inside a task id is compiled as a wildcard.\<close>

lemma task_id_dot_wildcard_example: "strip_task_id ''a.b'' ''aXb.x'' = Inr ''x''"
  by code_simp

subsection \<open>The accumulators\<close>

lemma register_step_effect:
  assumes "register_step step g = Inr g1" and "gen_structs h = gen_structs g"
  shows "\<exists>I T. g1 = g\<lparr>task_ids := task_ids g @ [task_id step],
                       imported_wfs := imported_wfs g @ I, prepped_tasks := prepped_tasks g @ T\<rparr>
             \<and> register_step step h
                 = Inr (h\<lparr>task_ids := task_ids h @ [task_id step],
                          imported_wfs := imported_wfs h @ I, prepped_tasks := prepped_tasks h @ T\<rparr>)"
proof (cases "task_definition step")
  case None
  with assms have g1: "g1 = g\<lparr>task_ids := task_ids g @ [task_id step]\<rparr>"
    by (auto simp: register_step_def Let_def)
  have "g1 = g\<lparr>task_ids := task_ids g @ [task_id step],
                       imported_wfs := imported_wfs g @ [], prepped_tasks := prepped_tasks g @ []\<rparr>
             \<and> register_step step h
                 = Inr (h\<lparr>task_ids := task_ids h @ [task_id step],
                          imported_wfs := imported_wfs h @ [], prepped_tasks := prepped_tasks h @ []\<rparr>)"
    unfolding g1 using None by (simp add: register_step_def Let_def)
  then show ?thesis by blast
next
  case (Some task)
  show ?thesis
  proof (cases "step_type step = ''task''")
    case True
    with Some assms obtain rendered where rendered: "task_generate_wdl (gen_structs g) task = Inr rendered"
      and g1: "g1 = g\<lparr>task_ids := task_ids g @ [task_id step], prepped_tasks := prepped_tasks g @ [rendered]\<rparr>"
      by (auto simp: register_step_def Let_def split: sum.splits)
    have "g1 = g\<lparr>task_ids := task_ids g @ [task_id step],
                       imported_wfs := imported_wfs g @ [], prepped_tasks := prepped_tasks g @ [rendered]\<rparr>
             \<and> register_step step h
                 = Inr (h\<lparr>task_ids := task_ids h @ [task_id step],
                          imported_wfs := imported_wfs h @ [], prepped_tasks := prepped_tasks h @ [rendered]\<rparr>)"
      using Some True rendered g1 assms(2) by (simp add: register_step_def Let_def)
    then show ?thesis by blast
  next
    case False
    let ?imp = "''import '' @ [dquote] @ last (str_split CHR ''.'' (task_id step)) @ ''.wdl'' @ [dquote]
                @ '' as '' @ last (str_split CHR ''.'' (task_id step))"
    have "g1 = g\<lparr>task_ids := task_ids g @ [task_id step],
                       imported_wfs := imported_wfs g @ [?imp], prepped_tasks := prepped_tasks g @ []\<rparr>
             \<and> register_step step h
                 = Inr (h\<lparr>task_ids := task_ids h @ [task_id step],
                          imported_wfs := imported_wfs h @ [?imp], prepped_tasks := prepped_tasks h @ []\<rparr>)"
      using Some False assms by (auto simp: register_step_def Let_def)
    then show ?thesis by blast
  qed
qed

lemma steps_loop_effect:
  assumes "steps_loop steps g = Inr (texts, g1)" and "gen_structs h = gen_structs g"
  shows "\<exists>ids I T. g1 = g\<lparr>task_ids := task_ids g @ ids,
                          imported_wfs := imported_wfs g @ I, prepped_tasks := prepped_tasks g @ T\<rparr>
             \<and> steps_loop steps h
                 = Inr (texts, h\<lparr>task_ids := task_ids h @ ids,
                          imported_wfs := imported_wfs h @ I, prepped_tasks := prepped_tasks h @ T\<rparr>)"
  using assms
proof (induction steps arbitrary: g h texts g1)
  case Nil
  then have "g1 = g\<lparr>task_ids := task_ids g @ [],
                          imported_wfs := imported_wfs g @ [], prepped_tasks := prepped_tasks g @ []\<rparr>
             \<and> steps_loop [] h
                 = Inr (texts, h\<lparr>task_ids := task_ids h @ [],
                          imported_wfs := imported_wfs h @ [], prepped_tasks := prepped_tasks h @ []\<rparr>)"
    by simp
  then show ?case by blast
next
  case (Cons step rest)
  from Cons.prems(1) obtain ga rendered texts' where ga: "register_step step g = Inr ga"
    and rendered: "format_step step = Inr rendered"
    and rest: "steps_loop rest ga = Inr (texts', g1)"
    and texts: "texts = rendered # texts'"
    by (auto split: sum.splits)
  from register_step_effect [OF ga Cons.prems(2)] obtain I0 T0 where
    ga_eq: "ga = g\<lparr>task_ids := task_ids g @ [task_id step],
                       imported_wfs := imported_wfs g @ I0, prepped_tasks := prepped_tasks g @ T0\<rparr>"
    and ha: "register_step step h
                 = Inr (h\<lparr>task_ids := task_ids h @ [task_id step],
                          imported_wfs := imported_wfs h @ I0, prepped_tasks := prepped_tasks h @ T0\<rparr>)"
    by blast
  let ?ha = "h\<lparr>task_ids := task_ids h @ [task_id step],
                          imported_wfs := imported_wfs h @ I0, prepped_tasks := prepped_tasks h @ T0\<rparr>"
  have "gen_structs ?ha = gen_structs ga"
    using Cons.prems(2) ga_eq by simp
  from Cons.IH [OF rest this] obtain ids I T where
    g1_eq: "g1 = ga\<lparr>task_ids := task_ids ga @ ids,
                          imported_wfs := imported_wfs ga @ I, prepped_tasks := prepped_tasks ga @ T\<rparr>"
    and hrest: "steps_loop rest ?ha
                 = Inr (texts', ?ha\<lparr>task_ids := task_ids ?ha @ ids,
                          imported_wfs := imported_wfs ?ha @ I, prepped_tasks := prepped_tasks ?ha @ T\<rparr>)"
    by blast
  have "g1 = g\<lparr>task_ids := task_ids g @ (task_id step # ids),
                          imported_wfs := imported_wfs g @ (I0 @ I), prepped_tasks := prepped_tasks g @ (T0 @ T)\<rparr>
             \<and> steps_loop (step # rest) h
                 = Inr (texts, h\<lparr>task_ids := task_ids h @ (task_id step # ids),
                          imported_wfs := imported_wfs h @ (I0 @ I), prepped_tasks := prepped_tasks h @ (T0 @ T)\<rparr>)"
    using g1_eq ga_eq ha hrest rendered texts by simp
  then show ?case by blast
qed

lemma str_join_double_length:
  "length (str_join sep (xs @ xs)) = 2 * length (str_join sep xs) + (if xs = [] then 0 else length sep)"
  by (cases "xs = []") (simp_all add: str_join_append)

lemma workflow_template_length:
  "length (workflow_template imports structs nm ins steps outs tasks)
     = length imports + length structs + length nm + length ins + length steps + length outs
       + length tasks + 34"
  by (simp add: workflow_template_def)

subsection \<open>Claims about the steps\<close>

text \<open>
  C7.  For a step with one binding, a declared scatter and a pre-scatter entry, the
  rendered text opens with the declared scatter block and holds the pre-scatter block
  inside it, indented; it is not the pre-scatter block followed by the declared
  scatter block.
\<close>

theorem C7_prescatter_first_counterexample:
  "step_inputs nested_step \<noteq> [] \<and> prescatter nested_step \<noteq> [] \<and> scatter nested_step \<noteq> []
   \<and> format_prescatter (prescatter nested_step)
       = ''\<newline>scatter (rec_item in rec) {\<newline>  File a = rec_item.fa\<newline>}\<newline>''
   \<and> format_step nested_step
       = Inr (''\<newline>    scatter (s in ss) {\<newline>  \<newline>  scatter (rec_item in rec) {\<newline>    File a = rec_item.fa\<newline>  }\<newline>  \<newline>      call t {\<newline>          input: x=v\<newline>      }\<newline>  \<newline>    }\<newline>'')
   \<and> format_step nested_step
       \<noteq> Inr (format_prescatter (prescatter nested_step)
              @ format_scatter (scatter nested_step) (call_block ''t'' [''x=v'']))"
  by code_simp

text \<open>
  C7, as the code has it.  For every step with bindings, a non-empty pre-scatter mapping
  and a non-empty declared scatter, the rendered text is the declared scatter block,
  and its body holds, each line indented by two more spaces, first the pre-scatter
  unpack blocks and then the call block: the pre-scatter blocks are nested inside the
  declared scatter, before the call.
\<close>

theorem C7_prescatter_nested:
  assumes "step_inputs step \<noteq> []" and "prescatter step \<noteq> []" and "scatter step \<noteq> []"
    and "binding_lines (task_id step) 0 (step_inputs step) = Inr lines"
  shows "format_step step
           = Inr (scatter_header (scatter step)
                  @ indent_lines (butlast (format_prescatter (prescatter step))) @ ''\<newline>''
                  @ indent_lines (call_block (task_id step) lines) @ ''\<newline>    }\<newline>'')
       \<and> format_step step
           \<noteq> Inr (format_prescatter (prescatter step)
                  @ format_scatter (scatter step) (call_block (task_id step) lines))"
proof -
  obtain b where b: "format_prescatter (prescatter step) = ''\<newline>s'' @ b @ ''\<newline>''"
    using format_prescatter_shape [OF assms(2)] by blast
  have bl: "butlast (format_prescatter (prescatter step)) = ''\<newline>s'' @ b"
    unfolding b by (simp add: butlast_append)
  have "format_prescatter (prescatter step) @ call_block (task_id step) lines
          = butlast (format_prescatter (prescatter step)) @ ''\<newline>'' @ call_block (task_id step) lines"
    unfolding bl unfolding b by simp
  then have "indent_lines (format_prescatter (prescatter step) @ call_block (task_id step) lines)
          = indent_lines (butlast (format_prescatter (prescatter step))) @ ''\<newline>''
            @ indent_lines (call_block (task_id step) lines)"
    by (simp only: indent_lines_append)
  then have 1: "format_step step
           = Inr (scatter_header (scatter step)
                  @ indent_lines (butlast (format_prescatter (prescatter step))) @ ''\<newline>''
                  @ indent_lines (call_block (task_id step) lines) @ ''\<newline>    }\<newline>'')"
    using assms by (simp add: format_step_def format_scatter_eq)
  have "format_step step = Inr (''\<newline> '' @ drop 2 (scatter_header (scatter step))
                  @ indent_lines (format_prescatter (prescatter step) @ call_block (task_id step) lines) @ ''\<newline>    }\<newline>'')"
    using assms by (simp add: format_step_def format_scatter_eq scatter_header_def)
  then have 2: "format_step step
           \<noteq> Inr (format_prescatter (prescatter step)
                  @ format_scatter (scatter step) (call_block (task_id step) lines))"
    unfolding b by simp
  from 1 2 show ?thesis by blast
qed

theorem C7_prescatter_nested_witness:
  "step_inputs nested_step \<noteq> [] \<and> prescatter nested_step \<noteq> [] \<and> scatter nested_step \<noteq> []
   \<and> binding_lines (task_id nested_step) 0 (step_inputs nested_step) = Inr [''x=v'']
   \<and> format_step nested_step
       = Inr (scatter_header [(''s'', ''ss'')]
              @ indent_lines ''\<newline>scatter (rec_item in rec) {\<newline>  File a = rec_item.fa\<newline>}'' @ ''\<newline>''
              @ indent_lines (call_block ''t'' [''x=v'']) @ ''\<newline>    }\<newline>'')"
proof -
  have lines: "binding_lines (task_id nested_step) 0 (step_inputs nested_step) = Inr [''x=v'']"
    by code_simp
  have facts: "step_inputs nested_step \<noteq> []" "prescatter nested_step \<noteq> []" "scatter nested_step \<noteq> []"
    by (simp_all add: nested_step_def)
  have pre: "butlast (format_prescatter (prescatter nested_step))
          = ''\<newline>scatter (rec_item in rec) {\<newline>  File a = rec_item.fa\<newline>}''"
    by code_simp
  from C7_prescatter_nested [OF facts lines] show ?thesis
    using lines facts by (simp add: pre) (simp add: nested_step_def)
qed






text \<open>
  C10.  After a first \<^verbatim>\<open>generate_wdl\<close> on a fresh instance, a second one on the same
  instance succeeds too, appends the same task ids, import lines and task texts once
  more, and prints every import line and every task text twice; its text differs from
  the first as soon as there is an import or a task text.
\<close>

theorem C10_second_run_doubles:
  assumes "generate_wdl (init_generator workflow) = Inr (out1, g1)"
  shows "\<exists>out2 g2 steps.
           generate_wdl g1 = Inr (out2, g2)
         \<and> task_ids g2 = task_ids g1 @ task_ids g1
         \<and> imported_wfs g2 = imported_wfs g1 @ imported_wfs g1
         \<and> prepped_tasks g2 = prepped_tasks g1 @ prepped_tasks g1
         \<and> out1 = workflow_template (str_join ''\<newline>'' (imported_wfs g1))
                    (format_structs (wf_structs workflow)) (wf_name workflow)
                    (format_inputs (wf_inputs workflow)) steps
                    (wf_format_outputs (wf_outputs workflow))
                    (str_join ''\<newline>'' (prepped_tasks g1))
         \<and> out2 = workflow_template (str_join ''\<newline>'' (imported_wfs g1 @ imported_wfs g1))
                    (format_structs (wf_structs workflow)) (wf_name workflow)
                    (format_inputs (wf_inputs workflow)) steps
                    (wf_format_outputs (wf_outputs workflow))
                    (str_join ''\<newline>'' (prepped_tasks g1 @ prepped_tasks g1))
         \<and> (imported_wfs g1 \<noteq> [] \<or> prepped_tasks g1 \<noteq> [] \<longrightarrow> out2 \<noteq> out1)"
proof -
  let ?g0 = "init_generator workflow"
  let ?S = "wf_steps workflow @ wf_subworkflows workflow"
  from assms obtain texts where loop: "steps_loop ?S ?g0 = Inr (texts, g1)"
    and out1: "out1 = workflow_template (str_join ''\<newline>'' (imported_wfs g1))
                    (format_structs (gen_structs g1)) (gen_name g1)
                    (format_inputs (wf_inputs workflow)) (str_join ''\<newline>'' texts)
                    (wf_format_outputs (gen_outputs g1))
                    (str_join ''\<newline>'' (prepped_tasks g1))"
    by (auto simp: generate_wdl_def format_steps_def init_generator_def split: sum.splits)
  from steps_loop_effect [OF loop, of ?g0] obtain ids I T where
    g1_eq: "g1 = ?g0\<lparr>task_ids := task_ids ?g0 @ ids,
                     imported_wfs := imported_wfs ?g0 @ I, prepped_tasks := prepped_tasks ?g0 @ T\<rparr>"
    by blast
  have same: "gen_structs g1 = gen_structs ?g0"
    unfolding g1_eq by simp
  from steps_loop_effect [OF loop same] obtain ids' I' T' where
    g1_eq': "g1 = ?g0\<lparr>task_ids := task_ids ?g0 @ ids',
                     imported_wfs := imported_wfs ?g0 @ I', prepped_tasks := prepped_tasks ?g0 @ T'\<rparr>"
    and loop2: "steps_loop ?S g1 = Inr (texts, g1\<lparr>task_ids := task_ids g1 @ ids',
                     imported_wfs := imported_wfs g1 @ I', prepped_tasks := prepped_tasks g1 @ T'\<rparr>)"
    by blast
  have acc: "task_ids g1 = ids'" "imported_wfs g1 = I'" "prepped_tasks g1 = T'"
    and fields: "gen_steps g1 = wf_steps workflow" "gen_subworkflows g1 = wf_subworkflows workflow"
      "gen_structs g1 = wf_structs workflow" "gen_name g1 = wf_name workflow"
      "gen_inputs g1 = wf_inputs workflow" "gen_outputs g1 = wf_outputs workflow"
    by (subst g1_eq', simp add: init_generator_def)+
  let ?g2 = "g1\<lparr>task_ids := task_ids g1 @ task_ids g1,
                     imported_wfs := imported_wfs g1 @ imported_wfs g1,
                     prepped_tasks := prepped_tasks g1 @ prepped_tasks g1\<rparr>"
  let ?out2 = "workflow_template (str_join ''\<newline>'' (imported_wfs g1 @ imported_wfs g1))
                    (format_structs (wf_structs workflow)) (wf_name workflow)
                    (format_inputs (wf_inputs workflow)) (str_join ''\<newline>'' texts)
                    (wf_format_outputs (wf_outputs workflow))
                    (str_join ''\<newline>'' (prepped_tasks g1 @ prepped_tasks g1))"
  have run2: "generate_wdl g1 = Inr (?out2, ?g2)"
    using loop2 by (simp add: generate_wdl_def format_steps_def fields acc)
  have out1': "out1 = workflow_template (str_join ''\<newline>'' (imported_wfs g1))
                    (format_structs (wf_structs workflow)) (wf_name workflow)
                    (format_inputs (wf_inputs workflow)) (str_join ''\<newline>'' texts)
                    (wf_format_outputs (wf_outputs workflow))
                    (str_join ''\<newline>'' (prepped_tasks g1))"
    using out1 by (simp add: fields)
  have differ: "?out2 \<noteq> out1" if "imported_wfs g1 \<noteq> [] \<or> prepped_tasks g1 \<noteq> []"
  proof -
    have "length ?out2 > length out1"
      unfolding out1' using that
      by (auto simp: workflow_template_length str_join_double_length)
    then show ?thesis by auto
  qed
  show ?thesis
    using run2 out1' differ by (intro exI [of _ ?out2] exI [of _ ?g2] exI [of _ "str_join ''\<newline>'' texts"]) simp
qed

theorem C10_second_run_doubles_witness:
  "\<exists>out1 g1 out2 g2.
     generate_wdl (init_generator example_workflow) = Inr (out1, g1)
   \<and> generate_wdl g1 = Inr (out2, g2)
   \<and> task_ids g1 = [''tool'', ''wf.sub'']
   \<and> task_ids g2 = [''tool'', ''wf.sub'', ''tool'', ''wf.sub'']
   \<and> imported_wfs g1 = [''import '' @ [dquote] @ ''sub.wdl'' @ [dquote] @ '' as sub'']
   \<and> imported_wfs g2 = [''import '' @ [dquote] @ ''sub.wdl'' @ [dquote] @ '' as sub'',
                         ''import '' @ [dquote] @ ''sub.wdl'' @ [dquote] @ '' as sub'']
   \<and> length (prepped_tasks g1) = 1
   \<and> prepped_tasks g2 = prepped_tasks g1 @ prepped_tasks g1
   \<and> out2 \<noteq> out1"
proof -
  have run: "case generate_wdl (init_generator example_workflow) of
               Inl e \<Rightarrow> False
             | Inr (out1, g1) \<Rightarrow>
                 task_ids g1 = [''tool'', ''wf.sub'']
               \<and> imported_wfs g1 = [''import '' @ [dquote] @ ''sub.wdl'' @ [dquote] @ '' as sub'']
               \<and> length (prepped_tasks g1) = 1"
    by code_simp
  then obtain out1 g1 where first: "generate_wdl (init_generator example_workflow) = Inr (out1, g1)"
    and acc: "task_ids g1 = [''tool'', ''wf.sub'']"
      "imported_wfs g1 = [''import '' @ [dquote] @ ''sub.wdl'' @ [dquote] @ '' as sub'']"
      "length (prepped_tasks g1) = 1"
    by (auto split: sum.splits)
  from C10_second_run_doubles [OF first] obtain out2 g2 where
    "generate_wdl g1 = Inr (out2, g2)" "task_ids g2 = task_ids g1 @ task_ids g1"
    "imported_wfs g2 = imported_wfs g1 @ imported_wfs g1"
    "prepped_tasks g2 = prepped_tasks g1 @ prepped_tasks g1"
    "imported_wfs g1 \<noteq> [] \<or> prepped_tasks g1 \<noteq> [] \<longrightarrow> out2 \<noteq> out1"
    by blast
  with first acc show ?thesis
    by (intro exI [of _ out1] exI [of _ g1] exI [of _ out2] exI [of _ g2]) simp
qed

end
